theory Spec2Isabelle
  imports Main "HOL-Library.Word"
begin

section \<open>JavaScript values as the script receives them\<close>

text \<open>
  A JavaScript string is a sequence of UTF-16 code units. \<open>str\<close> embeds an ASCII
  literal, for the property names and the examples.
\<close>

type_synonym jsstring = "16 word list"

definition str :: "string \<Rightarrow> jsstring" where
  "str s = map (\<lambda>c. of_nat (of_char c)) s"

text \<open>
  \<open>String.prototype.trim\<close> removes the WhiteSpace and LineTerminator code points from
  both ends: TAB, LF, VT, FF, CR, SP, NBSP, the Unicode space separators, LS, PS and
  ZWNBSP.
\<close>

definition isWhiteSpace :: "16 word \<Rightarrow> bool" where
  "isWhiteSpace c \<longleftrightarrow>
     c = 0x9 \<or> c = 0xA \<or> c = 0xB \<or> c = 0xC \<or> c = 0xD \<or> c = 0x20 \<or> c = 0xA0 \<or>
     c = 0x1680 \<or> (0x2000 \<le> c \<and> c \<le> 0x200A) \<or> c = 0x2028 \<or> c = 0x2029 \<or>
     c = 0x202F \<or> c = 0x205F \<or> c = 0x3000 \<or> c = 0xFEFF"

definition trim :: "jsstring \<Rightarrow> jsstring" where
  "trim s = rev (dropWhile isWhiteSpace (rev (dropWhile isWhiteSpace s)))"

text \<open>
  The values \<open>response.json()\<close> can yield. The type \<open>'n\<close> is the type of numbers, taken
  up to \<open>===\<close> (JSON has no NaN, and the two zeros are identified); what
  \<open>Number.prototype.toString\<close> prints for a number is a parameter \<open>ns\<close> of the functions
  below. An object is the list of its own properties; a property is looked up with
  \<open>map_of\<close>. \<open>undefined\<close> is not a JSON value: where the script can meet it (a missing
  property, the result of \<open>find\<close>) the model has an \<open>option\<close>, \<open>None\<close> being
  \<open>undefined\<close>.
\<close>

datatype 'n jsval =
    JNull
  | JBool bool
  | JNum 'n
  | JStr jsstring
  | JArr "'n jsval list"
  | JObj "(jsstring \<times> 'n jsval) list"

text \<open>What the script can throw, or a promise can reject with.\<close>

datatype js_error = TypeError | SyntaxError | RangeError

text \<open>
  \<open>v.k\<close> for one of the property names the script reads (\<open>username\<close>, \<open>password\<close>,
  \<open>userDatabase\<close>), none of which a prototype defines: reading a property of \<open>null\<close> or
  \<open>undefined\<close> throws, a primitive or an array has no such property, an object has it
  when it is one of its own.
\<close>

fun getProp :: "'n jsval option \<Rightarrow> jsstring \<Rightarrow> js_error + 'n jsval option" where
  "getProp None k = Inl TypeError"
| "getProp (Some JNull) k = Inl TypeError"
| "getProp (Some (JObj kvs)) k = Inr (map_of kvs k)"
| "getProp (Some v) k = Inr None"

text \<open>\<open>v.trim()\<close>: only a string has the method.\<close>

fun trimMethod :: "'n jsval option \<Rightarrow> js_error + jsstring" where
  "trimMethod (Some (JStr s)) = Inr (trim s)"
| "trimMethod v = Inl TypeError"

text \<open>
  \<open>v.toString()\<close>. A string is itself, a number prints through \<open>ns\<close>, a boolean prints
  its name, an array joins its elements with commas (\<open>null\<close> elements print as the empty
  string, the others as their own \<open>toString\<close>), an object prints \<open>[object Object]\<close>
  unless it has an own property \<open>toString\<close>, which, coming from JSON, is not callable.
\<close>

fun toStringMethod :: "('n \<Rightarrow> jsstring) \<Rightarrow> 'n jsval \<Rightarrow> js_error + jsstring"
  and joinElements :: "('n \<Rightarrow> jsstring) \<Rightarrow> 'n jsval list \<Rightarrow> js_error + jsstring"
where
  "toStringMethod ns JNull = Inl TypeError"
| "toStringMethod ns (JBool b) = Inr (if b then str ''true'' else str ''false'')"
| "toStringMethod ns (JNum n) = Inr (ns n)"
| "toStringMethod ns (JStr s) = Inr s"
| "toStringMethod ns (JArr vs) = joinElements ns vs"
| "toStringMethod ns (JObj kvs) =
     (if map_of kvs (str ''toString'') = None then Inr (str ''[object Object]'')
      else Inl TypeError)"
| "joinElements ns [] = Inr []"
| "joinElements ns (v # vs) =
     (case (if v = JNull then Inr [] else toStringMethod ns v) of
        Inl e \<Rightarrow> Inl e
      | Inr s \<Rightarrow>
          (if vs = [] then Inr s
           else (case joinElements ns vs of
                   Inl e \<Rightarrow> Inl e
                 | Inr t \<Rightarrow> Inr (s @ str '','' @ t))))"

fun toStringOf :: "('n \<Rightarrow> jsstring) \<Rightarrow> 'n jsval option \<Rightarrow> js_error + jsstring" where
  "toStringOf ns None = Inl TypeError"
| "toStringOf ns (Some v) = toStringMethod ns v"

text \<open>
  Truthiness, as \<open>if (userFound)\<close> tests it: \<open>undefined\<close>, \<open>null\<close>, \<open>false\<close>, the
  empty string and zero (the number that prints as \<open>0\<close>) are falsy.
\<close>

fun truthy :: "('n \<Rightarrow> jsstring) \<Rightarrow> 'n jsval option \<Rightarrow> bool" where
  "truthy ns None = False"
| "truthy ns (Some JNull) = False"
| "truthy ns (Some (JBool b)) = b"
| "truthy ns (Some (JNum n)) = (ns n \<noteq> str ''0'')"
| "truthy ns (Some (JStr s)) = (s \<noteq> [])"
| "truthy ns (Some (JArr vs)) = True"
| "truthy ns (Some (JObj kvs)) = True"

text \<open>
  \<open>a === b\<close>. Two objects (or arrays) are equal only when they are the same object;
  the two sides the script compares come from different parses, so they never are.
\<close>

fun strictEq :: "'n jsval option \<Rightarrow> 'n jsval option \<Rightarrow> bool" where
  "strictEq None None = True"
| "strictEq (Some JNull) (Some JNull) = True"
| "strictEq (Some (JBool a)) (Some (JBool b)) = (a = b)"
| "strictEq (Some (JNum a)) (Some (JNum b)) = (a = b)"
| "strictEq (Some (JStr a)) (Some (JStr b)) = (a = b)"
| "strictEq a b = False"

text \<open>
  \<open>xs.find(p)\<close>: the first element the predicate accepts, \<open>undefined\<close> when there is
  none; an exception the predicate throws ends the scan.
\<close>

fun find_js :: "('a \<Rightarrow> js_error + bool) \<Rightarrow> 'a list \<Rightarrow> js_error + 'a option" where
  "find_js p [] = Inr None"
| "find_js p (x # xs) =
     (case p x of
        Inl e \<Rightarrow> Inl e
      | Inr True \<Rightarrow> Inr (Some x)
      | Inr False \<Rightarrow> find_js p xs)"


section \<open>The session, the page and what the script does to them\<close>

text \<open>
  \<open>activeSession\<close> (lines 24-28). \<open>null\<close> is \<open>None\<close>; \<open>lastSync\<close> holds the time at which
  \<open>new Date()\<close> was taken.
\<close>

record 'n session =
  isAuthenticated :: bool
  userData :: "'n jsval option"
  lastSync :: "nat option"

definition initialSession :: "'n session" where
  "initialSession = \<lparr>isAuthenticated = False, userData = None, lastSync = None\<rparr>"

text \<open>The three messages \<open>showNotification\<close> is called with, all of type \<open>error\<close>.\<close>

datatype notification =
    CredentialsRequired       \<comment> \<open>Security Alert: Credentials Required\<close>
  | InvalidAuthorization      \<comment> \<open>Access Denied: Invalid Authorization\<close>
  | VaultConnectionTimedOut   \<comment> \<open>System Error: Vault Connection Timed Out\<close>

datatype console_line =
    AttemptingFetch | CriticalFault js_error | AccessGranted | SyncComplete | SyncInterrupted

text \<open>
  What the script does outside \<open>activeSession\<close>, in the order it does it: the calls of
  \<open>fetch\<close>, \<open>showNotification\<close>, \<open>setLoadingState\<close> and \<open>console\<close>, the switch from the
  landing page to the dashboard (lines 95-98), the calls of \<open>renderDashboard\<close> (with the
  record rendered, and the exception it ended with, if any) and the reload of the page.
  The elements the script looks up (the two fields, the button, the parts of the
  dashboard) are taken to be on the page.
\<close>

datatype 'n event =
    NetworkCall
  | ShowNotification notification
  | SetLoadingState bool
  | Console console_line
  | DashboardShown
  | RenderDashboard "'n jsval" "js_error option"
  | PageReload

text \<open>
  An \<open>async\<close> function is suspended at each \<open>await\<close>; between two of them it runs
  without interruption. A suspended call of \<open>processLogin\<close> or of the timer callback
  waits either for \<open>fetch\<close> or for \<open>response.json()\<close>.
\<close>

datatype task = LoginAwaitsFetch | LoginAwaitsJson | SyncAwaitsFetch | SyncAwaitsJson

record 'n world =
  activeSession :: "'n session"
  inputUser :: jsstring        \<comment> \<open>the value of the field \<open>input-user\<close>\<close>
  inputPass :: jsstring        \<comment> \<open>the value of the field \<open>input-pass\<close>\<close>
  pending :: "task list"
  effects :: "'n event list"

definition initialWorld :: "'n world" where
  "initialWorld =
     \<lparr>activeSession = initialSession, inputUser = [], inputPass = [], pending = [], effects = []\<rparr>"

definition emit :: "'n event list \<Rightarrow> 'n world \<Rightarrow> 'n world" where
  "emit es w = w\<lparr>effects := effects w @ es\<rparr>"

text \<open>
  \<open>renderDashboard\<close> (lines 104-129) reads \<open>activeSession.userData\<close> and writes the page
  through the DOM and \<open>Intl.NumberFormat\<close>. What it writes is not modelled; whether it
  returns or throws on a record (a record without a string \<open>accountType\<close>, a currency
  code \<open>Intl\<close> refuses) is the parameter \<open>rd\<close>: \<open>rd u = None\<close> when it returns. A
  computation that can throw after it has changed the world returns the exception, if
  any, with the world it leaves.
\<close>

definition renderDashboard ::
  "('n jsval \<Rightarrow> js_error option) \<Rightarrow> 'n world \<Rightarrow> js_error option \<times> 'n world" where
  "renderDashboard rd w =
     (case userData (activeSession w) of
        None \<Rightarrow> (Some TypeError, w)
      | Some u \<Rightarrow> (rd u, emit [RenderDashboard u (rd u)] w))"

text \<open>\<open>handleAuthSuccess\<close> (lines 87-101).\<close>

definition handleAuthSuccess ::
  "('n jsval \<Rightarrow> js_error option) \<Rightarrow> nat \<Rightarrow> 'n jsval \<Rightarrow> 'n world \<Rightarrow> js_error option \<times> 'n world" where
  "handleAuthSuccess rd now data w =
     renderDashboard rd
       (emit [Console AccessGranted, DashboardShown]
          (w\<lparr>activeSession :=
               (activeSession w)\<lparr>isAuthenticated := True, userData := Some data,
                                  lastSync := Some now\<rparr>\<rparr>))"

text \<open>The predicate of \<open>find\<close> in \<open>processLogin\<close> (lines 67-70); \<open>&&\<close> reads the password
  only when the user names agree.\<close>

definition credentialsMatch ::
  "('n \<Rightarrow> jsstring) \<Rightarrow> jsstring \<Rightarrow> jsstring \<Rightarrow> 'n jsval \<Rightarrow> js_error + bool" where
  "credentialsMatch ns user pass u =
     (case getProp (Some u) (str ''username'') of
        Inl e \<Rightarrow> Inl e
      | Inr name \<Rightarrow>
          (case trimMethod name of
             Inl e \<Rightarrow> Inl e
           | Inr t \<Rightarrow>
               if t = trim user then
                 (case getProp (Some u) (str ''password'') of
                    Inl e \<Rightarrow> Inl e
                  | Inr pw \<Rightarrow>
                      (case toStringOf ns pw of
                         Inl e \<Rightarrow> Inl e
                       | Inr s \<Rightarrow> Inr (s = trim pass)))
               else Inr False))"

text \<open>\<open>v.find(p)\<close> on what \<open>result.userDatabase\<close> gave: only an array has the method.\<close>

fun findMethod ::
  "'n jsval option \<Rightarrow> ('n jsval \<Rightarrow> js_error + bool) \<Rightarrow> js_error + 'n jsval option" where
  "findMethod (Some (JArr xs)) p = find_js p xs"
| "findMethod v p = Inl TypeError"

text \<open>The value bound to \<open>userFound\<close> (lines 67-70), on an array of records.\<close>

definition userFound ::
  "('n \<Rightarrow> jsstring) \<Rightarrow> 'n jsval list \<Rightarrow> jsstring \<Rightarrow> jsstring \<Rightarrow> js_error + 'n jsval option" where
  "userFound ns vaultData user pass = find_js (credentialsMatch ns user pass) vaultData"

text \<open>
  The \<open>try\<close> block of \<open>processLogin\<close> from line 64 on, once \<open>response.json()\<close> has given
  \<open>result\<close>. The input fields are read here, when \<open>find\<close> runs.
\<close>

definition accessDenied :: "'n world \<Rightarrow> 'n world" where
  "accessDenied w = emit [ShowNotification InvalidAuthorization, SetLoadingState False] w"

definition loginVault ::
  "('n \<Rightarrow> jsstring) \<Rightarrow> ('n jsval \<Rightarrow> js_error option) \<Rightarrow> nat \<Rightarrow> 'n jsval \<Rightarrow> 'n world
     \<Rightarrow> js_error option \<times> 'n world" where
  "loginVault ns rd now result w =
     (case getProp (Some result) (str ''userDatabase'') of
        Inl e \<Rightarrow> (Some e, w)
      | Inr vaultData \<Rightarrow>
          (case findMethod vaultData (credentialsMatch ns (inputUser w) (inputPass w)) of
             Inl e \<Rightarrow> (Some e, w)
           | Inr None \<Rightarrow> (None, accessDenied w)
           | Inr (Some data) \<Rightarrow>
               if truthy ns (Some data) then handleAuthSuccess rd now data w
               else (None, accessDenied w)))"

text \<open>The \<open>catch\<close> block of \<open>processLogin\<close> (lines 79-83).\<close>

definition loginCatch :: "js_error \<Rightarrow> 'n world \<Rightarrow> 'n world" where
  "loginCatch e w =
     emit [Console (CriticalFault e), ShowNotification VaultConnectionTimedOut,
           SetLoadingState False] w"

text \<open>
  \<open>processLogin\<close> from the point where the two awaits have settled: with an exception
  (a rejected \<open>fetch\<close>, a body that is not JSON) or with the parsed body.
\<close>

definition loginSettled ::
  "('n \<Rightarrow> jsstring) \<Rightarrow> ('n jsval \<Rightarrow> js_error option) \<Rightarrow> nat \<Rightarrow> js_error + 'n jsval
     \<Rightarrow> 'n world \<Rightarrow> 'n world" where
  "loginSettled ns rd now r w =
     (case r of
        Inl e \<Rightarrow> loginCatch e w
      | Inr result \<Rightarrow>
          (case loginVault ns rd now result w of
             (None, w') \<Rightarrow> w'
           | (Some e, w') \<Rightarrow> loginCatch e w'))"

text \<open>
  What the network gives one call of \<open>fetch\<close>: a rejection, or a response with its HTTP
  status and its body, parsed (\<open>None\<close> when the body is not JSON). \<open>fetch\<close> rejects with
  a \<open>TypeError\<close>, \<open>response.json()\<close> with a \<open>SyntaxError\<close>.
\<close>

datatype 'n fetched = FetchRejected | FetchResolved nat "'n jsval option"

fun settled :: "'n fetched \<Rightarrow> js_error + 'n jsval" where
  "settled FetchRejected = Inl TypeError"
| "settled (FetchResolved status None) = Inl SyntaxError"
| "settled (FetchResolved status (Some result)) = Inr result"

text \<open>\<open>processLogin\<close> (lines 46-84), run from its call to its end with nothing in between.\<close>

definition processLogin ::
  "('n \<Rightarrow> jsstring) \<Rightarrow> ('n jsval \<Rightarrow> js_error option) \<Rightarrow> 'n fetched \<Rightarrow> nat \<Rightarrow> 'n world
     \<Rightarrow> 'n world" where
  "processLogin ns rd fetched now w =
     (if inputUser w = [] \<or> inputPass w = [] then
        emit [ShowNotification CredentialsRequired] w
      else
        loginSettled ns rd now (settled fetched)
          (emit [SetLoadingState True, Console AttemptingFetch, NetworkCall] w))"

text \<open>The predicate of \<open>find\<close> in the timer callback (line 169).\<close>

definition sameUsername :: "'n jsval option \<Rightarrow> 'n jsval \<Rightarrow> js_error + bool" where
  "sameUsername held u =
     (case getProp (Some u) (str ''username'') of
        Inl e \<Rightarrow> Inl e
      | Inr a \<Rightarrow>
          (case getProp held (str ''username'') of
             Inl e \<Rightarrow> Inl e
           | Inr b \<Rightarrow> Inr (strictEq a b)))"

text \<open>The value bound to \<open>freshData\<close> (line 169), on an array of records.\<close>

definition freshData :: "'n jsval option \<Rightarrow> 'n jsval list \<Rightarrow> js_error + 'n jsval option" where
  "freshData held vaultData = find_js (sameUsername held) vaultData"

text \<open>The \<open>try\<close> block of the timer callback from line 169 on (lines 169-175).\<close>

definition syncVault ::
  "('n \<Rightarrow> jsstring) \<Rightarrow> ('n jsval \<Rightarrow> js_error option) \<Rightarrow> 'n jsval \<Rightarrow> 'n world
     \<Rightarrow> js_error option \<times> 'n world" where
  "syncVault ns rd result w =
     (case getProp (Some result) (str ''userDatabase'') of
        Inl e \<Rightarrow> (Some e, w)
      | Inr vaultData \<Rightarrow>
          (case findMethod vaultData (sameUsername (userData (activeSession w))) of
             Inl e \<Rightarrow> (Some e, w)
           | Inr fresh \<Rightarrow>
               if truthy ns fresh then
                 (case renderDashboard rd
                         (w\<lparr>activeSession := (activeSession w)\<lparr>userData := fresh\<rparr>\<rparr>) of
                    (Some e, w') \<Rightarrow> (Some e, w')
                  | (None, w') \<Rightarrow> (None, emit [Console SyncComplete] w'))
               else (None, w)))"

text \<open>
  The timer callback from the point where its awaits have settled, with its \<open>catch\<close>
  block (lines 176-178). The first component is the exception that leaves the callback.
\<close>

definition syncSettled ::
  "('n \<Rightarrow> jsstring) \<Rightarrow> ('n jsval \<Rightarrow> js_error option) \<Rightarrow> js_error + 'n jsval \<Rightarrow> 'n world
     \<Rightarrow> js_error option \<times> 'n world" where
  "syncSettled ns rd r w =
     (case r of
        Inl e \<Rightarrow> (None, emit [Console SyncInterrupted] w)
      | Inr result \<Rightarrow>
          (case syncVault ns rd result w of
             (None, w') \<Rightarrow> (None, w')
           | (Some e, w') \<Rightarrow> (None, emit [Console SyncInterrupted] w')))"

text \<open>The timer callback (lines 164-180), run from its call to its end with nothing in
  between.\<close>

definition autoSync ::
  "('n \<Rightarrow> jsstring) \<Rightarrow> ('n jsval \<Rightarrow> js_error option) \<Rightarrow> 'n fetched \<Rightarrow> 'n world
     \<Rightarrow> js_error option \<times> 'n world" where
  "autoSync ns rd fetched w =
     (if isAuthenticated (activeSession w) then
        syncSettled ns rd (settled fetched) (emit [NetworkCall] w)
      else (None, w))"


section \<open>The event loop: calls, awaits and what can run in between\<close>

text \<open>
  The first segment of \<open>processLogin\<close> (lines 47-60, up to the first \<open>await\<close>) and of the
  timer callback (lines 165-167).
\<close>

definition processLogin_start :: "'n world \<Rightarrow> 'n world" where
  "processLogin_start w =
     (if inputUser w = [] \<or> inputPass w = [] then
        emit [ShowNotification CredentialsRequired] w
      else
        (emit [SetLoadingState True, Console AttemptingFetch, NetworkCall] w)
          \<lparr>pending := pending w @ [LoginAwaitsFetch]\<rparr>)"

definition autoSync_start :: "'n world \<Rightarrow> 'n world" where
  "autoSync_start w =
     (if isAuthenticated (activeSession w) then
        (emit [NetworkCall] w)\<lparr>pending := pending w @ [SyncAwaitsFetch]\<rparr>
      else w)"

definition dropTask :: "nat \<Rightarrow> 'n world \<Rightarrow> 'n world" where
  "dropTask i w = w\<lparr>pending := take i (pending w) @ drop (Suc i) (pending w)\<rparr>"

text \<open>
  What can happen to the page: the user edits the two fields, calls \<open>processLogin\<close>
  (the button) or \<open>logout\<close>; the timer of \<open>setInterval\<close> fires; the \<open>fetch\<close> a suspended
  call waits for settles (rejected, or resolved with an HTTP status); its
  \<open>response.json()\<close> settles (rejected, or resolved with the parsed body), at some time
  of the clock. \<open>logout\<close> reloads the page (line 160): the script starts again, and the
  suspended calls of the old page are gone.
\<close>

datatype 'n action =
    Edit jsstring jsstring
  | Submit
  | TimerFires
  | FetchSettles nat "nat option"
  | JsonSettles nat "'n jsval option" nat
  | Logout

fun parsed :: "'n jsval option \<Rightarrow> js_error + 'n jsval" where
  "parsed None = Inl SyntaxError"
| "parsed (Some result) = Inr result"

fun step ::
  "('n \<Rightarrow> jsstring) \<Rightarrow> ('n jsval \<Rightarrow> js_error option) \<Rightarrow> 'n action \<Rightarrow> 'n world
     \<Rightarrow> 'n world option" where
  "step ns rd (Edit u p) w = Some (w\<lparr>inputUser := u, inputPass := p\<rparr>)"
| "step ns rd Submit w = Some (processLogin_start w)"
| "step ns rd TimerFires w = Some (autoSync_start w)"
| "step ns rd (FetchSettles i r) w =
     (if i < length (pending w) then
        (case (pending w ! i, r) of
           (LoginAwaitsFetch, Some status) \<Rightarrow>
             Some (w\<lparr>pending := (pending w)[i := LoginAwaitsJson]\<rparr>)
         | (LoginAwaitsFetch, None) \<Rightarrow> Some (loginCatch TypeError (dropTask i w))
         | (SyncAwaitsFetch, Some status) \<Rightarrow>
             Some (w\<lparr>pending := (pending w)[i := SyncAwaitsJson]\<rparr>)
         | (SyncAwaitsFetch, None) \<Rightarrow>
             Some (snd (syncSettled ns rd (Inl TypeError) (dropTask i w)))
         | _ \<Rightarrow> None)
      else None)"
| "step ns rd (JsonSettles i body now) w =
     (if i < length (pending w) then
        (case pending w ! i of
           LoginAwaitsJson \<Rightarrow> Some (loginSettled ns rd now (parsed body) (dropTask i w))
         | SyncAwaitsJson \<Rightarrow> Some (snd (syncSettled ns rd (parsed body) (dropTask i w)))
         | _ \<Rightarrow> None)
      else None)"
| "step ns rd Logout w =
     Some \<lparr>activeSession = initialSession, inputUser = [], inputPass = [], pending = [],
           effects = effects w @ [PageReload]\<rparr>"

fun run ::
  "('n \<Rightarrow> jsstring) \<Rightarrow> ('n jsval \<Rightarrow> js_error option) \<Rightarrow> 'n action list \<Rightarrow> 'n world
     \<Rightarrow> 'n world option" where
  "run ns rd [] w = Some w"
| "run ns rd (a # as) w =
     (case step ns rd a w of None \<Rightarrow> None | Some w' \<Rightarrow> run ns rd as w')"

text \<open>The number of timer callbacks that are suspended at an \<open>await\<close>.\<close>

definition syncsInFlight :: "'n world \<Rightarrow> nat" where
  "syncsInFlight w =
     length (filter (\<lambda>t. t = SyncAwaitsFetch \<or> t = SyncAwaitsJson) (pending w))"

section \<open>The notions of the specification\<close>

text \<open>
  A record of the collection: an object whose \<open>username\<close> is a string and whose
  \<open>password\<close> can be coerced to a string. Its identity key and its secret, coerced.
\<close>

fun identityKey :: "'n jsval \<Rightarrow> jsstring option" where
  "identityKey (JObj kvs) =
     (case map_of kvs (str ''username'') of Some (JStr k) \<Rightarrow> Some k | _ \<Rightarrow> None)"
| "identityKey v = None"

fun secretString :: "('n \<Rightarrow> jsstring) \<Rightarrow> 'n jsval \<Rightarrow> jsstring option" where
  "secretString ns (JObj kvs) =
     (case map_of kvs (str ''password'') of
        Some p \<Rightarrow> (case toStringMethod ns p of Inr s \<Rightarrow> Some s | Inl e \<Rightarrow> None)
      | None \<Rightarrow> None)"
| "secretString ns v = None"

definition isUserRecord :: "('n \<Rightarrow> jsstring) \<Rightarrow> 'n jsval \<Rightarrow> bool" where
  "isUserRecord ns u \<longleftrightarrow> identityKey u \<noteq> None \<and> secretString ns u \<noteq> None"

text \<open>
  The record \<open>u\<close> has the identity key \<open>k\<close>, once its own is trimmed, together with the
  secret \<open>s\<close>, its own being coerced to a string.
\<close>

definition hasCredentials :: "('n \<Rightarrow> jsstring) \<Rightarrow> jsstring \<Rightarrow> jsstring \<Rightarrow> 'n jsval \<Rightarrow> bool" where
  "hasCredentials ns k s u \<longleftrightarrow>
     (case identityKey u of None \<Rightarrow> False | Some k' \<Rightarrow> trim k' = k) \<and>
     secretString ns u = Some s"

text \<open>The session invariant: a record is held exactly when the flag is set, and then
  the time of the last synchronisation is set too.\<close>

definition sessionInvariant :: "'n session \<Rightarrow> bool" where
  "sessionInvariant s \<longleftrightarrow>
     (isAuthenticated s \<longleftrightarrow> userData s \<noteq> None) \<and>
     (isAuthenticated s \<longrightarrow> lastSync s \<noteq> None)"

text \<open>
  The invariant of the page: the session invariant, and a timer callback is suspended
  only while the session is authenticated.
\<close>

definition syncSuspended :: "'n world \<Rightarrow> bool" where
  "syncSuspended w \<longleftrightarrow> SyncAwaitsFetch \<in> set (pending w) \<or> SyncAwaitsJson \<in> set (pending w)"

definition worldInvariant :: "'n world \<Rightarrow> bool" where
  "worldInvariant w \<longleftrightarrow>
     sessionInvariant (activeSession w) \<and>
     (syncSuspended w \<longrightarrow> isAuthenticated (activeSession w))"

section \<open>Examples\<close>

text \<open>Numbers that are natural numbers below \<open>10^21\<close> print in decimal.\<close>

function decimal :: "nat \<Rightarrow> jsstring" where
  "decimal n =
     (if n < 10 then [of_nat (48 + n)] else decimal (n div 10) @ [of_nat (48 + n mod 10)])"
  by pat_completeness auto
termination
  by (relation "measure id") auto

text \<open>
  The records of the examples that get rendered have every column the dashboard reads,
  well-formed (a string \<open>accountType\<close>, the currency code \<open>USD\<close>, a string
  \<open>transactionHistory\<close>): \<open>renderDashboard\<close> returns on them.
\<close>

definition noRenderFault :: "nat jsval \<Rightarrow> js_error option" where
  "noRenderFault u = None"

definition alice :: "nat jsval" where
  "alice = JObj [(str ''username'', JStr (str ''alice'')), (str ''password'', JNum 1234),
                 (str ''fullName'', JStr (str ''Alice A'')),
                 (str ''accountType'', JStr (str ''savings'')),
                 (str ''accountNumber'', JStr (str ''MDB-001'')),
                 (str ''balance'', JNum 500), (str ''currency'', JStr (str ''USD'')),
                 (str ''transactionHistory'', JStr (str ''Deposit 500'')),
                 (str ''accountStatus'', JStr (str ''Active'')),
                 (str ''creditScore'', JNum 700)]"

text \<open>The same account after the balance has been changed in the sheet.\<close>

definition aliceRicher :: "nat jsval" where
  "aliceRicher = JObj [(str ''username'', JStr (str ''alice'')), (str ''password'', JNum 1234),
                       (str ''fullName'', JStr (str ''Alice A'')),
                       (str ''accountType'', JStr (str ''savings'')),
                       (str ''accountNumber'', JStr (str ''MDB-001'')),
                       (str ''balance'', JNum 900), (str ''currency'', JStr (str ''USD'')),
                       (str ''transactionHistory'', JStr (str ''Deposit 500; Deposit 400'')),
                       (str ''accountStatus'', JStr (str ''Active'')),
                       (str ''creditScore'', JNum 700)]"

text \<open>A record whose password cell holds a string with a leading space.\<close>

definition bob :: "nat jsval" where
  "bob = JObj [(str ''username'', JStr (str ''bob'')), (str ''password'', JStr (str '' 1234''))]"

definition vaultOf :: "nat jsval list \<Rightarrow> nat jsval" where
  "vaultOf records = JObj [(str ''userDatabase'', JArr records)]"

text \<open>A body without the field \<open>userDatabase\<close>, as an error response has it.\<close>

definition errorBody :: "nat jsval" where
  "errorBody = JObj [(str ''errors'', JArr [JObj [(str ''detail'', JStr (str ''Not found''))]])]"

definition aliceTyped :: "nat world" where
  "aliceTyped = initialWorld\<lparr>inputUser := str ''alice'', inputPass := str ''1234''\<rparr>"

definition aliceLoggedIn :: "nat world" where
  "aliceLoggedIn =
     aliceTyped\<lparr>activeSession :=
       \<lparr>isAuthenticated = True, userData = Some alice, lastSync = Some 100\<rparr>\<rparr>"

section \<open>Basic facts\<close>

lemma emit_fields [simp]:
  "activeSession (emit es w) = activeSession w"
  "pending (emit es w) = pending w"
  "inputUser (emit es w) = inputUser w"
  "inputPass (emit es w) = inputPass w"
  "effects (emit es w) = effects w @ es"
  by (simp_all add: emit_def)

lemma renderDashboard_fields [simp]:
  "activeSession (snd (renderDashboard rd w)) = activeSession w"
  "pending (snd (renderDashboard rd w)) = pending w"
  by (simp_all add: renderDashboard_def split: option.splits)

lemma handleAuthSuccess_fields [simp]:
  "activeSession (snd (handleAuthSuccess rd now data w)) =
     \<lparr>isAuthenticated = True, userData = Some data, lastSync = Some now\<rparr>"
  "pending (snd (handleAuthSuccess rd now data w)) = pending w"
  by (simp_all add: handleAuthSuccess_def)

lemma find_js_Some: "find_js p xs = Inr (Some x) \<Longrightarrow> x \<in> set xs \<and> p x = Inr True"
  by (induction xs) (auto split: sum.splits bool.splits if_splits)

lemma find_js_total: "\<forall>x\<in>set xs. p x = Inr (q x) \<Longrightarrow> find_js p xs = Inr (List.find q xs)"
  by (induction xs) auto

lemma credentialsMatch_object:
  "credentialsMatch ns user pass u = Inr True \<Longrightarrow> \<exists>kvs. u = JObj kvs"
  by (cases u) (simp_all add: credentialsMatch_def)

lemma credentialsMatch_record:
  "isUserRecord ns u \<Longrightarrow>
   credentialsMatch ns user pass u = Inr (hasCredentials ns (trim user) (trim pass) u)"
  by (cases u)
     (auto simp: isUserRecord_def hasCredentials_def credentialsMatch_def
           split: option.splits jsval.splits sum.splits)

lemma userFound_records:
  "\<forall>u\<in>set xs. isUserRecord ns u \<Longrightarrow>
   userFound ns xs user pass = Inr (List.find (hasCredentials ns (trim user) (trim pass)) xs)"
  unfolding userFound_def by (rule find_js_total) (simp add: credentialsMatch_record)

lemma userFound_truthy: "userFound ns xs user pass = Inr (Some r) \<Longrightarrow> truthy ns (Some r)"
  using find_js_Some [of "credentialsMatch ns user pass" xs r] credentialsMatch_object [of ns user pass r]
  by (auto simp: userFound_def)

lemma loginCatch_fields [simp]:
  "activeSession (loginCatch e w) = activeSession w"
  "pending (loginCatch e w) = pending w"
  "effects (loginCatch e w) = effects w @ [Console (CriticalFault e),
      ShowNotification VaultConnectionTimedOut, SetLoadingState False]"
  by (simp_all add: loginCatch_def)

lemma dropTask_fields [simp]:
  "activeSession (dropTask i w) = activeSession w"
  "effects (dropTask i w) = effects w"
  "inputUser (dropTask i w) = inputUser w"
  "inputPass (dropTask i w) = inputPass w"
  by (simp_all add: dropTask_def)

lemma set_pending_dropTask: "set (pending (dropTask i w)) \<subseteq> set (pending w)"
  using set_take_subset [of i "pending w"] set_drop_subset [of "Suc i" "pending w"]
  by (auto simp: dropTask_def)

lemma loginVault_pending [simp]: "pending (snd (loginVault ns rd now result w)) = pending w"
  by (simp add: loginVault_def accessDenied_def split: sum.splits option.splits)

lemma loginVault_session:
  "activeSession (snd (loginVault ns rd now result w)) = activeSession w \<or>
   (\<exists>data. activeSession (snd (loginVault ns rd now result w)) =
      \<lparr>isAuthenticated = True, userData = Some data, lastSync = Some now\<rparr>)"
  by (simp add: loginVault_def accessDenied_def split: sum.splits option.splits)

lemma loginSettled_pending [simp]: "pending (loginSettled ns rd now r w) = pending w"
proof (cases r)
  case (Inl e)
  then show ?thesis by (simp add: loginSettled_def)
next
  case (Inr result)
  obtain x w' where v: "loginVault ns rd now result w = (x, w')" by (cases "loginVault ns rd now result w")
  with loginVault_pending [of ns rd now result w] have "pending w' = pending w" by simp
  with Inr v show ?thesis by (simp add: loginSettled_def split: option.splits)
qed

lemma loginSettled_session:
  "activeSession (loginSettled ns rd now r w) = activeSession w \<or>
   (\<exists>data. activeSession (loginSettled ns rd now r w) =
      \<lparr>isAuthenticated = True, userData = Some data, lastSync = Some now\<rparr>)"
proof (cases r)
  case (Inl e)
  then show ?thesis by (simp add: loginSettled_def)
next
  case (Inr result)
  obtain x w' where v: "loginVault ns rd now result w = (x, w')" by (cases "loginVault ns rd now result w")
  with loginVault_session [of ns rd now result w] Inr show ?thesis
    by (auto simp: loginSettled_def split: option.splits)
qed

lemma syncVault_pending [simp]: "pending (snd (syncVault ns rd result w)) = pending w"
  by (simp add: syncVault_def renderDashboard_def split: sum.splits option.splits prod.splits)

lemma syncVault_session:
  "activeSession (snd (syncVault ns rd result w)) = activeSession w \<or>
   (\<exists>d. activeSession (snd (syncVault ns rd result w)) = (activeSession w)\<lparr>userData := Some d\<rparr>)"
  by (auto simp: syncVault_def renderDashboard_def split: sum.splits option.splits prod.splits)

lemma syncSettled_pending [simp]: "pending (snd (syncSettled ns rd r w)) = pending w"
proof (cases r)
  case (Inl e)
  then show ?thesis by (simp add: syncSettled_def)
next
  case (Inr result)
  obtain x w' where v: "syncVault ns rd result w = (x, w')" by (cases "syncVault ns rd result w")
  with syncVault_pending [of ns rd result w] have "pending w' = pending w" by simp
  with Inr v show ?thesis by (simp add: syncSettled_def split: option.splits)
qed

lemma syncSettled_session:
  "activeSession (snd (syncSettled ns rd r w)) = activeSession w \<or>
   (\<exists>d. activeSession (snd (syncSettled ns rd r w)) = (activeSession w)\<lparr>userData := Some d\<rparr>)"
proof (cases r)
  case (Inl e)
  then show ?thesis by (simp add: syncSettled_def)
next
  case (Inr result)
  obtain x w' where v: "syncVault ns rd result w = (x, w')" by (cases "syncVault ns rd result w")
  with syncVault_session [of ns rd result w] Inr show ?thesis
    by (auto simp: syncSettled_def split: option.splits)
qed

lemma syncSettled_fulfilled [simp]: "fst (syncSettled ns rd r w) = None"
  by (simp add: syncSettled_def split: sum.splits prod.splits option.splits)

lemma syncSettled_lastSync [simp]:
  "lastSync (activeSession (snd (syncSettled ns rd r w))) = lastSync (activeSession w)"
  "isAuthenticated (activeSession (snd (syncSettled ns rd r w))) = isAuthenticated (activeSession w)"
  using syncSettled_session [of ns rd r w] by auto

lemma find_js_no_match:
  "\<forall>x\<in>set xs. p x \<noteq> Inr True \<Longrightarrow> find_js p xs = Inr None \<or> (\<exists>e. find_js p xs = Inl e)"
  by (induction xs) (auto split: sum.splits bool.splits)

section \<open>Credential verification\<close>

lemmas example_defs =
  alice_def aliceRicher_def bob_def vaultOf_def aliceTyped_def aliceLoggedIn_def
  initialWorld_def initialSession_def noRenderFault_def errorBody_def str_def

text \<open>
  Claim C1, as stated: the verification of lines 67-70, called with a record's own
  identity key and its secret coerced to a string, returns that record. It fails for a record whose secret has
  surrounding whitespace: line 69 trims the submitted secret and not the stored one, so
  the record \<open>bob\<close>, whose password is \<open>" 1234"\<close>, is not found with its own credentials.
\<close>

theorem userFound_padded_secret_counterexample:
  "bob \<in> set [bob] \<and> isUserRecord decimal bob \<and> identityKey bob = Some (str ''bob'') \<and>
   secretString decimal bob = Some (str '' 1234'') \<and>
   userFound decimal [bob] (str ''bob'') (str '' 1234'') \<noteq> Inr (Some bob)"
  by (simp add: example_defs isUserRecord_def userFound_def credentialsMatch_def
        trim_def isWhiteSpace_def)

text \<open>
  Claim C1, amended: in a collection of records, for a record \<open>r\<close> whose secret, coerced
  to a string, has no surrounding whitespace, the verification called with the identity
  key of \<open>r\<close> and that string returns the first record of the collection whose trimmed
  identity key and coerced secret are those of \<open>r\<close>. That record stands at or before
  every occurrence of \<open>r\<close>, and is \<open>r\<close> itself when no other record has these
  credentials.
\<close>

theorem userFound_first_match:
  assumes recs: "\<forall>u\<in>set xs. isUserRecord ns u"
    and r: "r \<in> set xs"
    and k: "identityKey r = Some k"
    and s: "secretString ns r = Some s"
    and t: "trim s = s"
  shows "\<exists>i<length xs.
           userFound ns xs k s = Inr (Some (xs ! i)) \<and>
           hasCredentials ns (trim k) s (xs ! i) \<and>
           (\<forall>j<i. \<not> hasCredentials ns (trim k) s (xs ! j)) \<and>
           (\<forall>j<length xs. xs ! j = r \<longrightarrow> i \<le> j) \<and>
           ((\<forall>u\<in>set xs. hasCredentials ns (trim k) s u \<longrightarrow> u = r) \<longrightarrow> xs ! i = r)"
proof -
  let ?P = "hasCredentials ns (trim k) s"
  have hr: "?P r" using k s by (simp add: hasCredentials_def)
  have uf: "userFound ns xs k s = Inr (List.find ?P xs)"
    using userFound_records [OF recs, of k s] t by simp
  from r hr have "List.find ?P xs \<noteq> None" by (auto simp: find_None_iff)
  then obtain x where x: "List.find ?P xs = Some x" by auto
  then obtain i where i: "i < length xs" "?P (xs ! i)" "x = xs ! i" "\<forall>j<i. \<not> ?P (xs ! j)"
    by (auto simp: find_Some_iff)
  have "\<forall>j<length xs. xs ! j = r \<longrightarrow> i \<le> j"
    using i(4) hr by (meson not_le_imp_less)
  moreover have "(\<forall>u\<in>set xs. ?P u \<longrightarrow> u = r) \<longrightarrow> xs ! i = r"
    using i(1,2) nth_mem by blast
  ultimately show ?thesis using uf x i by auto
qed

text \<open>
  Claim C1, witness: of two records with the same user name and password, the first is
  returned for the credentials of the second.
\<close>

theorem userFound_first_match_witness:
  "isUserRecord decimal alice \<and> isUserRecord decimal aliceRicher \<and>
   aliceRicher \<in> set [alice, aliceRicher] \<and>
   identityKey aliceRicher = Some (str ''alice'') \<and>
   secretString decimal aliceRicher = Some (str ''1234'') \<and>
   trim (str ''1234'') = str ''1234'' \<and> alice \<noteq> aliceRicher \<and>
   userFound decimal [alice, aliceRicher] (str ''alice'') (str ''1234'') = Inr (Some alice)"
proof -
  have h1: "\<forall>u\<in>set [alice, aliceRicher]. isUserRecord decimal u"
    by (simp add: example_defs isUserRecord_def)
  have h2: "aliceRicher \<in> set [alice, aliceRicher]" by simp
  have h3: "identityKey aliceRicher = Some (str ''alice'')" by (simp add: example_defs)
  have h4: "secretString decimal aliceRicher = Some (str ''1234'')" by (simp add: example_defs)
  have h5: "trim (str ''1234'') = str ''1234''" by (simp add: str_def trim_def isWhiteSpace_def)
  have ne: "alice \<noteq> aliceRicher" by (simp add: example_defs)
  from userFound_first_match [OF h1 h2 h3 h4 h5]
  obtain i where i: "i < length [alice, aliceRicher]"
      "userFound decimal [alice, aliceRicher] (str ''alice'') (str ''1234'') =
         Inr (Some ([alice, aliceRicher] ! i))"
      "\<forall>j<i. \<not> hasCredentials decimal (trim (str ''alice'')) (str ''1234'') ([alice, aliceRicher] ! j)"
    by blast
  have "hasCredentials decimal (trim (str ''alice'')) (str ''1234'') alice"
    by (simp add: example_defs hasCredentials_def trim_def isWhiteSpace_def)
  with i(3) have "i = 0" by (cases i) auto
  with i(2) h1 h2 h3 h4 h5 ne show ?thesis by simp
qed

text \<open>
  Claim C2, as stated: when no record has the trimmed identity key together with the
  submitted secret, the verification returns nothing. It fails for a submitted secret with
  surrounding whitespace: no record has the secret \<open>" 1234"\<close>, yet \<open>alice\<close>, whose
  password is \<open>1234\<close>, is returned, since line 69 trims what was submitted.
\<close>

theorem userFound_padded_input_counterexample:
  "isUserRecord decimal alice \<and>
   \<not> hasCredentials decimal (trim (str ''alice'')) (str '' 1234'') alice \<and>
   userFound decimal [alice] (str ''alice'') (str '' 1234'') = Inr (Some alice)"
  by (simp add: example_defs isUserRecord_def hasCredentials_def userFound_def
        credentialsMatch_def trim_def isWhiteSpace_def)

text \<open>
  Claim C2, amended: in a collection of records none of which has the trimmed submitted
  identity key together with the trimmed submitted secret, the verification returns
  nothing; and
  \<open>processLogin\<close>, called with both fields filled in and given this collection by the
  vault, shows \<open>Access Denied: Invalid Authorization\<close>, releases the button and changes
  nothing else (the session least of all).
\<close>

theorem absent_credentials_denied:
  assumes recs: "\<forall>u\<in>set xs. isUserRecord ns u"
    and absent: "\<forall>u\<in>set xs. \<not> hasCredentials ns (trim (inputUser w)) (trim (inputPass w)) u"
  shows "userFound ns xs (inputUser w) (inputPass w) = Inr None \<and>
         (inputUser w \<noteq> [] \<and> inputPass w \<noteq> [] \<and>
          getProp (Some result) (str ''userDatabase'') = Inr (Some (JArr xs)) \<longrightarrow>
          processLogin ns rd (FetchResolved status (Some result)) now w =
            emit [SetLoadingState True, Console AttemptingFetch, NetworkCall,
                  ShowNotification InvalidAuthorization, SetLoadingState False] w)"
proof -
  have uf: "userFound ns xs (inputUser w) (inputPass w) = Inr None"
    using userFound_records [OF recs] absent by (simp add: find_None_iff)
  then show ?thesis
    by (simp add: processLogin_def loginSettled_def loginVault_def accessDenied_def
          userFound_def emit_def)
qed

text \<open>
  Claim C2, witness: \<open>alice\<close> with the password \<open>wrong\<close>.
\<close>

theorem absent_credentials_denied_witness:
  "isUserRecord decimal alice \<and> isUserRecord decimal bob \<and>
   \<not> hasCredentials decimal (trim (str ''alice'')) (trim (str ''wrong'')) alice \<and>
   \<not> hasCredentials decimal (trim (str ''alice'')) (trim (str ''wrong'')) bob \<and>
   userFound decimal [alice, bob] (str ''alice'') (str ''wrong'') = Inr None \<and>
   processLogin decimal noRenderFault (FetchResolved 200 (Some (vaultOf [alice, bob]))) 100
       (aliceTyped\<lparr>inputPass := str ''wrong''\<rparr>) =
     emit [SetLoadingState True, Console AttemptingFetch, NetworkCall,
           ShowNotification InvalidAuthorization, SetLoadingState False]
       (aliceTyped\<lparr>inputPass := str ''wrong''\<rparr>)"
proof -
  let ?w = "aliceTyped\<lparr>inputPass := str ''wrong''\<rparr>"
  have h1: "\<forall>u\<in>set [alice, bob]. isUserRecord decimal u"
    by (simp add: example_defs isUserRecord_def)
  have h2: "\<forall>u\<in>set [alice, bob].
      \<not> hasCredentials decimal (trim (inputUser ?w)) (trim (inputPass ?w)) u"
    by (simp add: example_defs hasCredentials_def trim_def isWhiteSpace_def)
  have h3: "inputUser ?w \<noteq> [] \<and> inputPass ?w \<noteq> [] \<and>
      getProp (Some (vaultOf [alice, bob])) (str ''userDatabase'') = Inr (Some (JArr [alice, bob]))"
    by (simp add: aliceTyped_def initialWorld_def vaultOf_def str_def)
  have u: "inputUser ?w = str ''alice''" "inputPass ?w = str ''wrong''"
    by (simp_all add: aliceTyped_def)
  from absent_credentials_denied [OF h1 h2, of "vaultOf [alice, bob]" noRenderFault 200 100] h3 h1 h2
  show ?thesis unfolding u by simp
qed

section \<open>The login\<close>

lemma loginVault_found:
  assumes "getProp (Some result) (str ''userDatabase'') = Inr (Some (JArr xs))"
    and "userFound ns xs (inputUser w) (inputPass w) = Inr (Some r)"
  shows "loginVault ns rd now result w = handleAuthSuccess rd now r w"
  using assms userFound_truthy [of ns xs "inputUser w" "inputPass w" r]
  by (simp add: loginVault_def userFound_def)

lemma loginSettled_found:
  assumes "getProp (Some result) (str ''userDatabase'') = Inr (Some (JArr xs))"
    and "userFound ns xs (inputUser w) (inputPass w) = Inr (Some r)"
  shows "activeSession (loginSettled ns rd now (Inr result) w) =
           \<lparr>isAuthenticated = True, userData = Some r, lastSync = Some now\<rparr>"
proof -
  obtain x w' where h: "handleAuthSuccess rd now r w = (x, w')"
    by (cases "handleAuthSuccess rd now r w")
  with handleAuthSuccess_fields(1) [of rd now r w]
  have "activeSession w' = \<lparr>isAuthenticated = True, userData = Some r, lastSync = Some now\<rparr>"
    by simp
  with h loginVault_found [OF assms, of rd now] show ?thesis
    by (simp add: loginSettled_def split: option.splits)
qed

lemma loginVault_not_found:
  assumes "\<not> (\<exists>xs r. getProp (Some result) (str ''userDatabase'') = Inr (Some (JArr xs)) \<and>
                 userFound ns xs (inputUser w) (inputPass w) = Inr (Some r))"
  shows "activeSession (snd (loginVault ns rd now result w)) = activeSession w"
proof (cases "getProp (Some result) (str ''userDatabase'')")
  case (Inl e)
  then show ?thesis by (simp add: loginVault_def)
next
  case (Inr v)
  show ?thesis
  proof (cases "\<exists>xs. v = Some (JArr xs)")
    case False
    then have "findMethod v (credentialsMatch ns (inputUser w) (inputPass w)) = Inl TypeError"
      by (cases "(v, credentialsMatch ns (inputUser w) (inputPass w))" rule: findMethod.cases) auto
    with Inr show ?thesis by (simp add: loginVault_def)
  next
    case True
    then obtain xs where xs: "v = Some (JArr xs)" by blast
    with Inr assms have "\<forall>r. find_js (credentialsMatch ns (inputUser w) (inputPass w)) xs \<noteq> Inr (Some r)"
      by (simp add: userFound_def)
    with Inr xs show ?thesis
      by (simp add: loginVault_def accessDenied_def split: sum.splits option.splits)
  qed
qed

lemma loginSettled_not_found:
  assumes "\<not> (\<exists>xs r. getProp (Some result) (str ''userDatabase'') = Inr (Some (JArr xs)) \<and>
                 userFound ns xs (inputUser w) (inputPass w) = Inr (Some r))"
  shows "activeSession (loginSettled ns rd now (Inr result) w) = activeSession w"
proof -
  obtain x w' where v: "loginVault ns rd now result w = (x, w')"
    by (cases "loginVault ns rd now result w")
  with loginVault_not_found [OF assms, of rd now] have "activeSession w' = activeSession w" by simp
  with v show ?thesis by (simp add: loginSettled_def split: option.splits)
qed

text \<open>
  Claim C3: \<open>processLogin\<close> changes the session all at once or not at all. When both
  fields are filled in, the vault answers with an array and \<open>find\<close> returns a record,
  the session becomes that record, the flag and the time of the call, together; in
  every other case (an empty field, a rejected fetch, a body that is not JSON or has no
  array, an exception in \<open>find\<close>, no record found) the session is what it was, so that a
  failed attempt from the anonymous session leaves no record held.
\<close>

theorem processLogin_atomic:
  "(inputUser w \<noteq> [] \<and> inputPass w \<noteq> [] \<and>
    getProp (Some result) (str ''userDatabase'') = Inr (Some (JArr xs)) \<and>
    userFound ns xs (inputUser w) (inputPass w) = Inr (Some r) \<longrightarrow>
      activeSession (processLogin ns rd (FetchResolved status (Some result)) now w) =
        \<lparr>isAuthenticated = True, userData = Some r, lastSync = Some now\<rparr>) \<and>
   (\<not> (inputUser w \<noteq> [] \<and> inputPass w \<noteq> [] \<and>
       (\<exists>status result xs r.
          fetched = FetchResolved status (Some result) \<and>
          getProp (Some result) (str ''userDatabase'') = Inr (Some (JArr xs)) \<and>
          userFound ns xs (inputUser w) (inputPass w) = Inr (Some r))) \<longrightarrow>
      activeSession (processLogin ns rd fetched now w) = activeSession w)"
proof (intro conjI impI)
  assume a: "inputUser w \<noteq> [] \<and> inputPass w \<noteq> [] \<and>
    getProp (Some result) (str ''userDatabase'') = Inr (Some (JArr xs)) \<and>
    userFound ns xs (inputUser w) (inputPass w) = Inr (Some r)"
  let ?w = "emit [SetLoadingState True, Console AttemptingFetch, NetworkCall] w"
  from a have "userFound ns xs (inputUser ?w) (inputPass ?w) = Inr (Some r)" by simp
  with a loginSettled_found [of result xs ns ?w r rd now]
  show "activeSession (processLogin ns rd (FetchResolved status (Some result)) now w) =
        \<lparr>isAuthenticated = True, userData = Some r, lastSync = Some now\<rparr>"
    by (simp add: processLogin_def)
next
  assume n: "\<not> (inputUser w \<noteq> [] \<and> inputPass w \<noteq> [] \<and>
       (\<exists>status result xs r.
          fetched = FetchResolved status (Some result) \<and>
          getProp (Some result) (str ''userDatabase'') = Inr (Some (JArr xs)) \<and>
          userFound ns xs (inputUser w) (inputPass w) = Inr (Some r)))"
  let ?w = "emit [SetLoadingState True, Console AttemptingFetch, NetworkCall] w"
  show "activeSession (processLogin ns rd fetched now w) = activeSession w"
  proof (cases "inputUser w = [] \<or> inputPass w = []")
    case True
    then show ?thesis by (auto simp: processLogin_def)
  next
    case False
    show ?thesis
    proof (cases "settled fetched")
      case (Inl e)
      with False show ?thesis by (simp add: processLogin_def loginSettled_def)
    next
      case (Inr result)
      then obtain status where f: "fetched = FetchResolved status (Some result)"
        by (cases fetched rule: settled.cases) auto
      with n False
      have "\<not> (\<exists>xs r. getProp (Some result) (str ''userDatabase'') = Inr (Some (JArr xs)) \<and>
                 userFound ns xs (inputUser ?w) (inputPass ?w) = Inr (Some r))"
        by auto
      from loginSettled_not_found [OF this, of rd now] False Inr show ?thesis
        by (simp add: processLogin_def)
    qed
  qed
qed

text \<open>Claim C3, witness: \<open>alice\<close> logs in at time 100.\<close>

theorem processLogin_atomic_witness:
  "inputUser aliceTyped \<noteq> [] \<and> inputPass aliceTyped \<noteq> [] \<and>
   getProp (Some (vaultOf [bob, alice])) (str ''userDatabase'') = Inr (Some (JArr [bob, alice])) \<and>
   userFound decimal [bob, alice] (inputUser aliceTyped) (inputPass aliceTyped) = Inr (Some alice) \<and>
   activeSession (processLogin decimal noRenderFault (FetchResolved 200 (Some (vaultOf [bob, alice])))
                    100 aliceTyped) =
     \<lparr>isAuthenticated = True, userData = Some alice, lastSync = Some 100\<rparr>"
proof -
  have h: "inputUser aliceTyped \<noteq> [] \<and> inputPass aliceTyped \<noteq> [] \<and>
      getProp (Some (vaultOf [bob, alice])) (str ''userDatabase'') = Inr (Some (JArr [bob, alice])) \<and>
      userFound decimal [bob, alice] (inputUser aliceTyped) (inputPass aliceTyped) = Inr (Some alice)"
    by (simp add: example_defs userFound_def credentialsMatch_def trim_def isWhiteSpace_def)
  with processLogin_atomic [of aliceTyped "vaultOf [bob, alice]" "[bob, alice]" decimal alice
         noRenderFault 200 100]
  show ?thesis by blast
qed

lemma processLogin_render_fault:
  assumes "inputUser w \<noteq> []" "inputPass w \<noteq> []"
    and "getProp (Some result) (str ''userDatabase'') = Inr (Some (JArr xs))"
    and "userFound ns xs (inputUser w) (inputPass w) = Inr (Some r)"
    and "rd r = Some e"
  shows "activeSession (processLogin ns rd (FetchResolved status (Some result)) now w) =
           \<lparr>isAuthenticated = True, userData = Some r, lastSync = Some now\<rparr> \<and>
         effects (processLogin ns rd (FetchResolved status (Some result)) now w) =
           effects w @ [SetLoadingState True, Console AttemptingFetch, NetworkCall,
                        Console AccessGranted, DashboardShown, RenderDashboard r (Some e),
                        Console (CriticalFault e), ShowNotification VaultConnectionTimedOut,
                        SetLoadingState False]"
proof -
  let ?w = "emit [SetLoadingState True, Console AttemptingFetch, NetworkCall] w"
  from assms(4) have "userFound ns xs (inputUser ?w) (inputPass ?w) = Inr (Some r)" by simp
  from loginVault_found [OF assms(3) this, of rd now] assms(1,2,5) show ?thesis
    by (simp add: processLogin_def loginSettled_def handleAuthSuccess_def renderDashboard_def
          loginCatch_def emit_def)
qed

lemma loginVault_no_array:
  assumes "\<forall>xs. getProp (Some result) (str ''userDatabase'') \<noteq> Inr (Some (JArr xs))"
  shows "\<exists>e. loginVault ns rd now result w = (Some e, w)"
proof (cases "getProp (Some result) (str ''userDatabase'')")
  case (Inl e)
  then show ?thesis by (simp add: loginVault_def)
next
  case (Inr v)
  with assms have "\<forall>xs. v \<noteq> Some (JArr xs)" by simp
  then have "findMethod v (credentialsMatch ns (inputUser w) (inputPass w)) = Inl TypeError"
    by (cases "(v, credentialsMatch ns (inputUser w) (inputPass w))" rule: findMethod.cases) auto
  with Inr show ?thesis by (simp add: loginVault_def)
qed

text \<open>
  Claim C4, as stated: a response with a non-success status is a failure of the read.
  The script never looks at the status: a response with status 500 whose body holds the
  collection logs \<open>alice\<close> in, and no error is shown.
\<close>

theorem status_ignored_counterexample:
  "activeSession (processLogin decimal noRenderFault (FetchResolved 500 (Some (vaultOf [alice])))
                    100 aliceTyped) =
     \<lparr>isAuthenticated = True, userData = Some alice, lastSync = Some 100\<rparr> \<and>
   effects (processLogin decimal noRenderFault (FetchResolved 500 (Some (vaultOf [alice])))
              100 aliceTyped) =
     [SetLoadingState True, Console AttemptingFetch, NetworkCall, Console AccessGranted,
      DashboardShown, RenderDashboard alice None]"
  by (simp add: example_defs processLogin_def loginSettled_def loginVault_def
        handleAuthSuccess_def renderDashboard_def credentialsMatch_def emit_def
        trim_def isWhiteSpace_def)

text \<open>
  Claim C4, amended: the HTTP status has no influence on \<open>processLogin\<close>; and when
  both fields are filled in and \<open>fetch\<close> rejects, or the body is not JSON, or its field
  \<open>userDatabase\<close> is absent or not an array, \<open>processLogin\<close> shows
  \<open>System Error: Vault Connection Timed Out\<close>, releases the button and changes nothing
  else.
\<close>

theorem vault_failures_surface:
  "processLogin ns rd (FetchResolved status body) now w =
     processLogin ns rd (FetchResolved status' body) now w \<and>
   (inputUser w \<noteq> [] \<and> inputPass w \<noteq> [] \<and>
    (fetched = FetchRejected \<or> (\<exists>st. fetched = FetchResolved st None) \<or>
     (\<exists>st result. fetched = FetchResolved st (Some result) \<and>
        (\<forall>xs. getProp (Some result) (str ''userDatabase'') \<noteq> Inr (Some (JArr xs))))) \<longrightarrow>
    (\<exists>e. processLogin ns rd fetched now w =
       emit [SetLoadingState True, Console AttemptingFetch, NetworkCall,
             Console (CriticalFault e), ShowNotification VaultConnectionTimedOut,
             SetLoadingState False] w))"
proof (intro conjI impI)
  show "processLogin ns rd (FetchResolved status body) now w =
     processLogin ns rd (FetchResolved status' body) now w"
    by (cases body) (simp_all add: processLogin_def)
next
  let ?w = "emit [SetLoadingState True, Console AttemptingFetch, NetworkCall] w"
  assume a: "inputUser w \<noteq> [] \<and> inputPass w \<noteq> [] \<and>
    (fetched = FetchRejected \<or> (\<exists>st. fetched = FetchResolved st None) \<or>
     (\<exists>st result. fetched = FetchResolved st (Some result) \<and>
        (\<forall>xs. getProp (Some result) (str ''userDatabase'') \<noteq> Inr (Some (JArr xs)))))"
  then have "\<exists>e. loginSettled ns rd now (settled fetched) ?w = loginCatch e ?w"
  proof (elim conjE disjE exE)
    assume "fetched = FetchRejected"
    then show ?thesis by (auto simp: loginSettled_def)
  next
    fix st assume "fetched = FetchResolved st None"
    then show ?thesis by (auto simp: loginSettled_def)
  next
    fix st result
    assume f: "fetched = FetchResolved st (Some result)"
      and g: "\<forall>xs. getProp (Some result) (str ''userDatabase'') \<noteq> Inr (Some (JArr xs))"
    from loginVault_no_array [OF g, of ns rd now ?w]
    obtain e where "loginVault ns rd now result ?w = (Some e, ?w)" by blast
    with f show ?thesis by (auto simp: loginSettled_def)
  qed
  with a show "\<exists>e. processLogin ns rd fetched now w =
       emit [SetLoadingState True, Console AttemptingFetch, NetworkCall,
             Console (CriticalFault e), ShowNotification VaultConnectionTimedOut,
             SetLoadingState False] w"
    by (simp add: processLogin_def loginCatch_def emit_def)
qed

text \<open>Claim C4, witness: a 404 response whose body is an error object.\<close>

theorem vault_failures_surface_witness:
  "inputUser aliceTyped \<noteq> [] \<and> inputPass aliceTyped \<noteq> [] \<and>
   processLogin decimal noRenderFault (FetchResolved 404 (Some errorBody)) 100 aliceTyped =
     processLogin decimal noRenderFault (FetchResolved 200 (Some errorBody)) 100 aliceTyped \<and>
   (\<exists>e. processLogin decimal noRenderFault (FetchResolved 404 (Some errorBody)) 100 aliceTyped =
      emit [SetLoadingState True, Console AttemptingFetch, NetworkCall,
            Console (CriticalFault e), ShowNotification VaultConnectionTimedOut,
            SetLoadingState False] aliceTyped)"
proof -
  have h: "inputUser aliceTyped \<noteq> [] \<and> inputPass aliceTyped \<noteq> []"
    by (simp add: example_defs)
  have g: "\<forall>xs. getProp (Some errorBody) (str ''userDatabase'') \<noteq> Inr (Some (JArr xs))"
    by (simp add: errorBody_def str_def)
  from vault_failures_surface
         [of decimal noRenderFault 404 "Some errorBody" 100 aliceTyped 200
             "FetchResolved 404 (Some errorBody)"] h g
  show ?thesis by blast
qed

text \<open>
  Claim C9: when one of the two fields is empty, \<open>processLogin\<close> shows
  \<open>Security Alert: Credentials Required\<close> and does nothing else: no call of \<open>fetch\<close>, no
  suspended call, the session unchanged.
\<close>

theorem empty_credentials_guard:
  "inputUser w = [] \<or> inputPass w = [] \<Longrightarrow>
   processLogin ns rd fetched now w = emit [ShowNotification CredentialsRequired] w \<and>
   step ns rd Submit w = Some (emit [ShowNotification CredentialsRequired] w)"
  by (auto simp: processLogin_def processLogin_start_def)

text \<open>Claim C9, witness: the password field left empty.\<close>

theorem empty_credentials_guard_witness:
  "(inputUser (aliceTyped\<lparr>inputPass := []\<rparr>) = [] \<or> inputPass (aliceTyped\<lparr>inputPass := []\<rparr>) = []) \<and>
   processLogin decimal noRenderFault (FetchResolved 200 (Some (vaultOf [alice]))) 100
       (aliceTyped\<lparr>inputPass := []\<rparr>) =
     emit [ShowNotification CredentialsRequired] (aliceTyped\<lparr>inputPass := []\<rparr>) \<and>
   step decimal noRenderFault Submit (aliceTyped\<lparr>inputPass := []\<rparr>) =
     Some (emit [ShowNotification CredentialsRequired] (aliceTyped\<lparr>inputPass := []\<rparr>))"
proof -
  have h: "inputUser (aliceTyped\<lparr>inputPass := []\<rparr>) = [] \<or> inputPass (aliceTyped\<lparr>inputPass := []\<rparr>) = []"
    by simp
  from empty_credentials_guard [OF h, of decimal noRenderFault "FetchResolved 200 (Some (vaultOf [alice]))" 100] h
  show ?thesis by blast
qed

section \<open>The synchronisation\<close>

text \<open>
  Claim C5: the timer callback, called while the session is not authenticated, leaves
  the whole world as it is: no call of \<open>fetch\<close>, nothing suspended, nothing changed.
\<close>

theorem anonymous_tick_idle:
  "\<not> isAuthenticated (activeSession w) \<Longrightarrow>
   autoSync ns rd fetched w = (None, w) \<and> step ns rd TimerFires w = Some w"
  by (simp add: autoSync_def autoSync_start_def)

text \<open>Claim C5, witness: the timer fires before anybody has logged in.\<close>

theorem anonymous_tick_idle_witness:
  "\<not> isAuthenticated (activeSession aliceTyped) \<and>
   autoSync decimal noRenderFault (FetchResolved 200 (Some (vaultOf [alice]))) aliceTyped =
     (None, aliceTyped) \<and>
   step decimal noRenderFault TimerFires aliceTyped = Some aliceTyped"
proof -
  have h: "\<not> isAuthenticated (activeSession aliceTyped)" by (simp add: example_defs)
  from anonymous_tick_idle [OF h, of decimal noRenderFault "FetchResolved 200 (Some (vaultOf [alice]))"] h
  show ?thesis by simp
qed

lemma syncVault_no_array:
  assumes "\<forall>xs. getProp (Some result) (str ''userDatabase'') \<noteq> Inr (Some (JArr xs))"
  shows "\<exists>e. syncVault ns rd result w = (Some e, w)"
proof (cases "getProp (Some result) (str ''userDatabase'')")
  case (Inl e)
  then show ?thesis by (simp add: syncVault_def)
next
  case (Inr v)
  with assms have "\<forall>xs. v \<noteq> Some (JArr xs)" by simp
  then have "findMethod v (sameUsername (userData (activeSession w))) = Inl TypeError"
    by (cases "(v, sameUsername (userData (activeSession w)))" rule: findMethod.cases) auto
  with Inr show ?thesis by (simp add: syncVault_def)
qed

lemma syncVault_no_match:
  assumes "getProp (Some result) (str ''userDatabase'') = Inr (Some (JArr xs))"
    and "\<forall>u\<in>set xs. sameUsername (userData (activeSession w)) u \<noteq> Inr True"
  shows "snd (syncVault ns rd result w) = w"
  using assms find_js_no_match [OF assms(2)]
  by (auto simp: syncVault_def)

text \<open>
  Claim C6: when the timer callback runs while authenticated and its fetch is rejected,
  or the body is not JSON, or has no array \<open>userDatabase\<close>, or the array has no element
  whose \<open>username\<close> is \<open>===\<close> to the held one, the session (the held record with it) is
  unchanged, no exception leaves the callback, and the next firing of the timer fetches
  again.
\<close>

theorem failed_tick_keeps_record:
  assumes auth: "isAuthenticated (activeSession w)"
    and fail: "fetched = FetchRejected \<or> (\<exists>st. fetched = FetchResolved st None) \<or>
      (\<exists>st result. fetched = FetchResolved st (Some result) \<and>
         ((\<forall>xs. getProp (Some result) (str ''userDatabase'') \<noteq> Inr (Some (JArr xs))) \<or>
          (\<exists>xs. getProp (Some result) (str ''userDatabase'') = Inr (Some (JArr xs)) \<and>
                (\<forall>u\<in>set xs. sameUsername (userData (activeSession w)) u \<noteq> Inr True))))"
  shows "activeSession (snd (autoSync ns rd fetched w)) = activeSession w \<and>
         fst (autoSync ns rd fetched w) = None \<and>
         (\<exists>w'. step ns rd TimerFires (snd (autoSync ns rd fetched w)) = Some w' \<and>
               effects w' = effects (snd (autoSync ns rd fetched w)) @ [NetworkCall])"
proof -
  let ?w = "emit [NetworkCall] w"
  have s: "activeSession (snd (syncSettled ns rd (settled fetched) ?w)) = activeSession w"
    using fail
  proof (elim disjE exE conjE)
    assume "fetched = FetchRejected"
    then show ?thesis by (simp add: syncSettled_def)
  next
    fix st assume "fetched = FetchResolved st None"
    then show ?thesis by (simp add: syncSettled_def)
  next
    fix st result
    assume f: "fetched = FetchResolved st (Some result)"
      and g: "\<forall>xs. getProp (Some result) (str ''userDatabase'') \<noteq> Inr (Some (JArr xs))"
    from syncVault_no_array [OF g, of ns rd ?w]
    obtain e where "syncVault ns rd result ?w = (Some e, ?w)" by blast
    with f show ?thesis by (simp add: syncSettled_def)
  next
    fix st result xs
    assume f: "fetched = FetchResolved st (Some result)"
      and g: "getProp (Some result) (str ''userDatabase'') = Inr (Some (JArr xs))"
      and n: "\<forall>u\<in>set xs. sameUsername (userData (activeSession w)) u \<noteq> Inr True"
    from n have "\<forall>u\<in>set xs. sameUsername (userData (activeSession ?w)) u \<noteq> Inr True" by simp
    from syncVault_no_match [OF g this, of ns rd]
    obtain x where "syncVault ns rd result ?w = (x, ?w)"
      by (cases "syncVault ns rd result ?w") auto
    with f show ?thesis by (simp add: syncSettled_def split: option.splits)
  qed
  with auth have a: "activeSession (snd (autoSync ns rd fetched w)) = activeSession w"
    by (simp add: autoSync_def)
  have b: "fst (autoSync ns rd fetched w) = None" by (simp add: autoSync_def)
  from a auth have "isAuthenticated (activeSession (snd (autoSync ns rd fetched w)))" by simp
  then have "\<exists>w'. step ns rd TimerFires (snd (autoSync ns rd fetched w)) = Some w' \<and>
               effects w' = effects (snd (autoSync ns rd fetched w)) @ [NetworkCall]"
    by (simp add: autoSync_start_def)
  with a b show ?thesis by blast
qed

text \<open>Claim C6, witness: \<open>alice\<close> is logged in and the vault only holds \<open>bob\<close>.\<close>

theorem failed_tick_keeps_record_witness:
  "isAuthenticated (activeSession aliceLoggedIn) \<and>
   getProp (Some (vaultOf [bob])) (str ''userDatabase'') = Inr (Some (JArr [bob])) \<and>
   sameUsername (userData (activeSession aliceLoggedIn)) bob = Inr False \<and>
   activeSession (snd (autoSync decimal noRenderFault (FetchResolved 200 (Some (vaultOf [bob])))
                         aliceLoggedIn)) =
     \<lparr>isAuthenticated = True, userData = Some alice, lastSync = Some 100\<rparr> \<and>
   fst (autoSync decimal noRenderFault (FetchResolved 200 (Some (vaultOf [bob]))) aliceLoggedIn) = None"
proof -
  have a: "isAuthenticated (activeSession aliceLoggedIn)" by (simp add: example_defs)
  have g: "getProp (Some (vaultOf [bob])) (str ''userDatabase'') = Inr (Some (JArr [bob]))"
    by (simp add: example_defs)
  have n: "sameUsername (userData (activeSession aliceLoggedIn)) bob = Inr False"
    by (simp add: example_defs sameUsername_def)
  have s: "activeSession aliceLoggedIn =
      \<lparr>isAuthenticated = True, userData = Some alice, lastSync = Some 100\<rparr>"
    by (simp add: aliceLoggedIn_def)
  have f: "FetchResolved 200 (Some (vaultOf [bob])) = FetchRejected \<or>
      (\<exists>st. FetchResolved 200 (Some (vaultOf [bob])) = FetchResolved st None) \<or>
      (\<exists>st result. FetchResolved 200 (Some (vaultOf [bob])) = FetchResolved st (Some result) \<and>
         ((\<forall>xs. getProp (Some result) (str ''userDatabase'') \<noteq> Inr (Some (JArr xs))) \<or>
          (\<exists>xs. getProp (Some result) (str ''userDatabase'') = Inr (Some (JArr xs)) \<and>
                (\<forall>u\<in>set xs. sameUsername (userData (activeSession aliceLoggedIn)) u \<noteq> Inr True))))"
    using g n by simp
  from failed_tick_keeps_record [OF a f, of decimal noRenderFault] a g n s
  show ?thesis by simp
qed

lemma autoSync_fulfilled: "fst (autoSync ns rd fetched w) = None"
  by (simp add: autoSync_def)

lemma autoSync_lastSync:
  "lastSync (activeSession (snd (autoSync ns rd fetched w))) = lastSync (activeSession w)"
  by (simp add: autoSync_def)

lemma sameUsername_records:
  "identityKey u = Some k \<Longrightarrow> identityKey held = Some k' \<Longrightarrow>
   sameUsername (Some held) u = Inr (k = k')"
  by (cases u; cases held)
     (auto simp: sameUsername_def split: option.splits jsval.splits)

lemma identityKey_object: "identityKey u = Some k \<Longrightarrow> \<exists>kvs. u = JObj kvs"
  by (cases u) simp_all

lemma freshData_records:
  assumes "\<forall>u\<in>set xs. identityKey u \<noteq> None" and "identityKey held = Some k"
  shows "freshData (Some held) xs = Inr (List.find (\<lambda>u. identityKey u = Some k) xs)"
  unfolding freshData_def
proof (rule find_js_total, rule ballI)
  fix u assume "u \<in> set xs"
  with assms(1) obtain k' where "identityKey u = Some k'" by auto
  with sameUsername_records [OF this assms(2)]
  show "sameUsername (Some held) u = Inr (identityKey u = Some k)" by auto
qed

lemma autoSync_replaces:
  assumes auth: "isAuthenticated (activeSession w)"
    and held: "userData (activeSession w) = Some held" "identityKey held = Some k"
    and vault: "getProp (Some result) (str ''userDatabase'') = Inr (Some (JArr xs))"
    and recs: "\<forall>u\<in>set xs. identityKey u \<noteq> None"
    and found: "List.find (\<lambda>u. identityKey u = Some k) xs = Some u"
  shows "activeSession (snd (autoSync ns rd (FetchResolved status (Some result)) w)) =
           (activeSession w)\<lparr>userData := Some u\<rparr> \<and>
         effects (snd (autoSync ns rd (FetchResolved status (Some result)) w)) =
           effects w @ [NetworkCall, RenderDashboard u (rd u),
                        Console (if rd u = None then SyncComplete else SyncInterrupted)]"
proof -
  from found have "identityKey u = Some k" by (auto simp: find_Some_iff)
  then obtain kvs where u: "u = JObj kvs" using identityKey_object by blast
  have "find_js (sameUsername (Some held)) xs = Inr (Some u)"
    using freshData_records [OF recs held(2)] found by (simp add: freshData_def)
  with auth held vault u show ?thesis
    by (simp add: autoSync_def syncSettled_def syncVault_def renderDashboard_def emit_def
          split: option.splits)
qed

text \<open>
  Claim C7 says that a tick that finds the held identity key replaces the record and
  updates the time of synchronisation. The callback replaces the record and leaves
  \<open>lastSync\<close> alone: \<open>alice\<close> logged in at time 100, the tick completes at time 130 with
  a new record for her, and \<open>lastSync\<close> is still 100.
\<close>

theorem sync_leaves_lastSync:
  "map_option activeSession
     (run decimal noRenderFault
        [TimerFires, FetchSettles 0 (Some 200),
         JsonSettles 0 (Some (vaultOf [bob, aliceRicher])) 130] aliceLoggedIn) =
   Some \<lparr>isAuthenticated = True, userData = Some aliceRicher, lastSync = Some 100\<rparr>"
  by (simp add: example_defs autoSync_start_def dropTask_def syncSettled_def syncVault_def
        sameUsername_def renderDashboard_def emit_def)

section \<open>The event loop\<close>

lemma processLogin_run:
  assumes "inputUser w \<noteq> []" and "inputPass w \<noteq> []"
  shows "run ns rd [Submit, FetchSettles (length (pending w)) (Some status),
                    JsonSettles (length (pending w)) body now] w =
         Some (processLogin ns rd (FetchResolved status body) now w)"
proof -
  have "settled (FetchResolved status body) = parsed body" by (cases body) simp_all
  with assms show ?thesis
    by (simp add: processLogin_start_def processLogin_def dropTask_def emit_def)
qed

lemma autoSync_run:
  assumes "isAuthenticated (activeSession w)"
  shows "run ns rd [TimerFires, FetchSettles (length (pending w)) (Some status),
                    JsonSettles (length (pending w)) body now] w =
         Some (snd (autoSync ns rd (FetchResolved status body) w))"
proof -
  have "settled (FetchResolved status body) = parsed body" by (cases body) simp_all
  with assms show ?thesis
    by (simp add: autoSync_start_def autoSync_def dropTask_def emit_def)
qed

text \<open>
  Claim C8, as stated: two ticks never overlap. After a login, the timer fires twice
  before any response arrives, and two callbacks are suspended at once.
\<close>

theorem ticks_overlap_counterexample:
  "map_option syncsInFlight
     (run decimal noRenderFault
        [Edit (str ''alice'') (str ''1234''), Submit, FetchSettles 0 (Some 200),
         JsonSettles 0 (Some (vaultOf [alice])) 100, TimerFires, TimerFires] initialWorld) =
   Some 2"
  by (simp add: example_defs processLogin_start_def autoSync_start_def dropTask_def
        loginSettled_def loginVault_def handleAuthSuccess_def renderDashboard_def
        credentialsMatch_def emit_def trim_def isWhiteSpace_def syncsInFlight_def)

text \<open>
  Claim C8, amended: the timer has no guard. Each firing while the session is
  authenticated starts a callback of its own, which calls \<open>fetch\<close> and is suspended,
  whatever is already in flight; the session is not touched at that point.
\<close>

theorem timer_reentrant:
  "isAuthenticated (activeSession w) \<Longrightarrow>
   \<exists>w'. step ns rd TimerFires w = Some w' \<and>
        syncsInFlight w' = Suc (syncsInFlight w) \<and>
        effects w' = effects w @ [NetworkCall] \<and>
        activeSession w' = activeSession w"
  by (simp add: autoSync_start_def syncsInFlight_def)

text \<open>Claim C8, witness: a firing while one callback is already suspended.\<close>

theorem timer_reentrant_witness:
  "isAuthenticated (activeSession (aliceLoggedIn\<lparr>pending := [SyncAwaitsFetch]\<rparr>)) \<and>
   syncsInFlight (aliceLoggedIn\<lparr>pending := [SyncAwaitsFetch]\<rparr>) = 1 \<and>
   (\<exists>w'. step decimal noRenderFault TimerFires (aliceLoggedIn\<lparr>pending := [SyncAwaitsFetch]\<rparr>) = Some w' \<and>
         syncsInFlight w' = 2)"
proof -
  have a: "isAuthenticated (activeSession (aliceLoggedIn\<lparr>pending := [SyncAwaitsFetch]\<rparr>))"
    by (simp add: example_defs)
  have b: "syncsInFlight (aliceLoggedIn\<lparr>pending := [SyncAwaitsFetch]\<rparr>) = 1"
    by (simp add: syncsInFlight_def)
  from timer_reentrant [OF a, of decimal noRenderFault] a b show ?thesis by auto
qed

lemma worldInvariant_initial: "worldInvariant initialWorld"
  by (simp add: worldInvariant_def sessionInvariant_def syncSuspended_def initialWorld_def
        initialSession_def)

lemma worldInvariant_step:
  assumes inv: "worldInvariant w" and st: "step ns rd a w = Some w'"
  shows "worldInvariant w'"
proof (cases a)
  case (Edit u p)
  with inv st show ?thesis by (auto simp: worldInvariant_def syncSuspended_def)
next
  case Submit
  with inv st show ?thesis
    by (auto simp: worldInvariant_def syncSuspended_def processLogin_start_def split: if_splits)
next
  case TimerFires
  with inv st show ?thesis
    by (auto simp: worldInvariant_def syncSuspended_def autoSync_start_def split: if_splits)
next
  case (FetchSettles i r)
  with st have i: "i < length (pending w)" by (simp split: if_splits)
  have sub: "set (pending (dropTask i w)) \<subseteq> set (pending w)" by (rule set_pending_dropTask)
  show ?thesis
  proof (cases "pending w ! i")
    case LoginAwaitsFetch
    show ?thesis
    proof (cases r)
      case None
      with LoginAwaitsFetch FetchSettles st i have "w' = loginCatch TypeError (dropTask i w)" by simp
      with inv sub show ?thesis by (auto simp: worldInvariant_def syncSuspended_def)
    next
      case (Some status)
      with LoginAwaitsFetch FetchSettles st i
      have w': "w' = w\<lparr>pending := (pending w)[i := LoginAwaitsJson]\<rparr>" by simp
      have "set ((pending w)[i := LoginAwaitsJson]) \<subseteq> insert LoginAwaitsJson (set (pending w))"
        by (rule set_update_subset_insert)
      with inv w' show ?thesis by (auto simp: worldInvariant_def syncSuspended_def)
    qed
  next
    case SyncAwaitsFetch
    with i have auth: "isAuthenticated (activeSession w)"
      using inv nth_mem [of i "pending w"] by (auto simp: worldInvariant_def syncSuspended_def)
    show ?thesis
    proof (cases r)
      case None
      with SyncAwaitsFetch FetchSettles st i
      have "w' = snd (syncSettled ns rd (Inl TypeError) (dropTask i w))" by simp
      with inv auth show ?thesis
        by (simp add: worldInvariant_def syncSettled_def sessionInvariant_def)
    next
      case (Some status)
      with SyncAwaitsFetch FetchSettles st i
      have "w' = w\<lparr>pending := (pending w)[i := SyncAwaitsJson]\<rparr>" by simp
      with inv auth show ?thesis by (simp add: worldInvariant_def)
    qed
  next
    case LoginAwaitsJson
    with FetchSettles st i show ?thesis by simp
  next
    case SyncAwaitsJson
    with FetchSettles st i show ?thesis by simp
  qed
next
  case (JsonSettles i body now)
  with st have i: "i < length (pending w)" by (simp split: if_splits)
  have sub: "set (pending (dropTask i w)) \<subseteq> set (pending w)" by (rule set_pending_dropTask)
  show ?thesis
  proof (cases "pending w ! i")
    case LoginAwaitsJson
    with JsonSettles st i have w': "w' = loginSettled ns rd now (parsed body) (dropTask i w)" by simp
    from loginSettled_session [of ns rd now "parsed body" "dropTask i w"]
    show ?thesis
    proof
      assume "activeSession (loginSettled ns rd now (parsed body) (dropTask i w)) =
              activeSession (dropTask i w)"
      with inv sub w' show ?thesis by (auto simp: worldInvariant_def syncSuspended_def)
    next
      assume "\<exists>data. activeSession (loginSettled ns rd now (parsed body) (dropTask i w)) =
              \<lparr>isAuthenticated = True, userData = Some data, lastSync = Some now\<rparr>"
      with w' show ?thesis by (auto simp: worldInvariant_def sessionInvariant_def)
    qed
  next
    case SyncAwaitsJson
    with i have auth: "isAuthenticated (activeSession w)"
      using inv nth_mem [of i "pending w"] by (auto simp: worldInvariant_def syncSuspended_def)
    from SyncAwaitsJson JsonSettles st i
    have w': "w' = snd (syncSettled ns rd (parsed body) (dropTask i w))" by simp
    from syncSettled_session [of ns rd "parsed body" "dropTask i w"] inv auth w'
    show ?thesis by (auto simp: worldInvariant_def sessionInvariant_def)
  next
    case LoginAwaitsFetch
    with JsonSettles st i show ?thesis by simp
  next
    case SyncAwaitsFetch
    with JsonSettles st i show ?thesis by simp
  qed
next
  case Logout
  with st show ?thesis
    by (auto simp: worldInvariant_def sessionInvariant_def syncSuspended_def initialSession_def)
qed

lemma worldInvariant_run:
  "worldInvariant w \<Longrightarrow> run ns rd acts w = Some w' \<Longrightarrow> worldInvariant w'"
proof (induction acts arbitrary: w)
  case Nil
  then show ?case by simp
next
  case (Cons a acts)
  then show ?case by (auto split: option.splits dest: worldInvariant_step)
qed

text \<open>
  Claim C10: in every world the page can reach from its initial state, whatever the
  user, the timer and the network do and in whatever order, the flag is set exactly
  when a record is held, and then \<open>lastSync\<close> is set too.
\<close>

theorem session_invariant_reachable:
  "run ns rd acts initialWorld = Some w \<Longrightarrow> sessionInvariant (activeSession w)"
  using worldInvariant_run [OF worldInvariant_initial] by (auto simp: worldInvariant_def)

text \<open>Claim C10, witness: the world after \<open>alice\<close> has logged in.\<close>

theorem session_invariant_reachable_witness:
  "run decimal noRenderFault
     [Edit (str ''alice'') (str ''1234''), Submit, FetchSettles 0 (Some 200),
      JsonSettles 0 (Some (vaultOf [alice])) 100] initialWorld =
     Some (aliceLoggedIn\<lparr>effects :=
        [SetLoadingState True, Console AttemptingFetch, NetworkCall, Console AccessGranted,
         DashboardShown, RenderDashboard alice None]\<rparr>) \<and>
   sessionInvariant (activeSession (aliceLoggedIn\<lparr>effects :=
        [SetLoadingState True, Console AttemptingFetch, NetworkCall, Console AccessGranted,
         DashboardShown, RenderDashboard alice None]\<rparr>)) \<and>
   isAuthenticated (activeSession aliceLoggedIn)"
proof -
  have r: "run decimal noRenderFault
     [Edit (str ''alice'') (str ''1234''), Submit, FetchSettles 0 (Some 200),
      JsonSettles 0 (Some (vaultOf [alice])) 100] initialWorld =
     Some (aliceLoggedIn\<lparr>effects :=
        [SetLoadingState True, Console AttemptingFetch, NetworkCall, Console AccessGranted,
         DashboardShown, RenderDashboard alice None]\<rparr>)"
    by (simp add: example_defs processLogin_start_def dropTask_def
        loginSettled_def loginVault_def handleAuthSuccess_def renderDashboard_def
        credentialsMatch_def emit_def trim_def isWhiteSpace_def)
  have a: "isAuthenticated (activeSession aliceLoggedIn)" by (simp add: aliceLoggedIn_def)
  from session_invariant_reachable [OF r] r a show ?thesis by simp
qed

end
